theory Spec2Isabelle
  imports Complex_Main
begin

section \<open>Numbers and typed arrays\<close>

text \<open>
  The audio path of \<^verbatim>\<open>options.js\<close> works on JavaScript numbers and on
  \<^verbatim>\<open>Float32Array\<close>s. Finite numbers are modelled as rationals (every finite
  float is one) with exact arithmetic; the rounding of the floating-point operations is
  not modelled. What JavaScript does where exact arithmetic has no answer is written out:
  a division by zero yields an infinity or NaN, a read outside an array yields
  \<^verbatim>\<open>undefined\<close> (NaN once used in arithmetic or stored in a typed array), a
  write outside a typed array is ignored, and a typed array of negative or infinite length
  cannot be created (RangeError).
\<close>

datatype js_error = RangeError

datatype jsnum = Fin rat | PosInf | NegInf | NaN

text \<open>An element of a \<^verbatim>\<open>Float32Array\<close>: \<open>None\<close> is NaN.\<close>

type_synonym f32 = "rat option"

text \<open>\<^verbatim>\<open>a / b\<close> for a finite \<open>a\<close>; a zero divisor is \<open>+0\<close> wherever the code divides.\<close>

fun js_div :: "rat \<Rightarrow> jsnum \<Rightarrow> jsnum" where
  "js_div a (Fin b) =
     (if b \<noteq> 0 then Fin (a / b)
      else if 0 < a then PosInf else if a < 0 then NegInf else NaN)"
| "js_div a PosInf = Fin 0"
| "js_div a NegInf = Fin 0"
| "js_div a NaN = NaN"

text \<open>\<^verbatim>\<open>n * x\<close> for a length \<open>n\<close> (a non-negative integer).\<close>

fun js_times_len :: "nat \<Rightarrow> jsnum \<Rightarrow> jsnum" where
  "js_times_len n (Fin x) = Fin (of_nat n * x)"
| "js_times_len n PosInf = (if n = 0 then NaN else PosInf)"
| "js_times_len n NegInf = (if n = 0 then NaN else NegInf)"
| "js_times_len n NaN = NaN"

text \<open>\<^verbatim>\<open>Math.round\<close>: the nearest integer, halves rounded up.\<close>

fun js_round :: "jsnum \<Rightarrow> jsnum" where
  "js_round (Fin x) = Fin (of_int \<lfloor>x + 1 / 2\<rfloor>)"
| "js_round y = y"

text \<open>\<^verbatim>\<open>x - 1\<close>.\<close>

fun js_pred :: "jsnum \<Rightarrow> jsnum" where
  "js_pred (Fin x) = Fin (x - 1)"
| "js_pred y = y"

text \<open>
  \<^verbatim>\<open>new Float32Array(n)\<close> for a number \<open>n\<close>: the length is \<open>n\<close> truncated
  towards zero, NaN converts to length 0, a negative or infinite length raises RangeError,
  otherwise the array is filled with zeros. (The engine's upper limit on array lengths is
  not modelled.)
\<close>

fun new_Float32Array :: "jsnum \<Rightarrow> js_error + f32 list" where
  "new_Float32Array (Fin x) =
     (let n = (if x < 0 then - \<lfloor>- x\<rfloor> else \<lfloor>x\<rfloor>)
      in if n < 0 then Inl RangeError else Inr (replicate (nat n) (Some 0)))"
| "new_Float32Array NaN = Inr []"
| "new_Float32Array PosInf = Inl RangeError"
| "new_Float32Array NegInf = Inl RangeError"

text \<open>\<^verbatim>\<open>data[i]\<close> read as a number: out of range it is \<^verbatim>\<open>undefined\<close>, that is NaN.\<close>

definition load :: "rat list \<Rightarrow> int \<Rightarrow> f32" where
  "load data i = (if 0 \<le> i \<and> i < int (length data) then Some (data ! nat i) else None)"

text \<open>\<^verbatim>\<open>arr[i] = v\<close> on a typed array: ignored out of range.\<close>

definition store :: "f32 list \<Rightarrow> int \<Rightarrow> f32 \<Rightarrow> f32 list" where
  "store arr i v = (if 0 \<le> i \<and> i < int (length arr) then arr[nat i := v] else arr)"

definition f_add :: "f32 \<Rightarrow> f32 \<Rightarrow> f32" where
  "f_add a b = (case (a, b) of (Some x, Some y) \<Rightarrow> Some (x + y) | _ \<Rightarrow> None)"

definition f_sub :: "f32 \<Rightarrow> f32 \<Rightarrow> f32" where
  "f_sub a b = (case (a, b) of (Some x, Some y) \<Rightarrow> Some (x - y) | _ \<Rightarrow> None)"

definition f_mul :: "f32 \<Rightarrow> f32 \<Rightarrow> f32" where
  "f_mul a b = (case (a, b) of (Some x, Some y) \<Rightarrow> Some (x * y) | _ \<Rightarrow> None)"


section \<open>The resampler (\<^verbatim>\<open>resampleTo16kHZ\<close>, options.js)\<close>

text \<open>
  \<^verbatim>\<open>Math.round(data.length * (targetSampleRate / origSampleRate))\<close>, as the
  JavaScript number the variable \<^verbatim>\<open>targetLength\<close> holds.
\<close>

definition targetLength :: "nat \<Rightarrow> rat \<Rightarrow> jsnum" where
  "targetLength len origSampleRate =
     js_round (js_times_len len (js_div 16000 (Fin origSampleRate)))"

text \<open>\<^verbatim>\<open>(data.length - 1) / (targetLength - 1)\<close>.\<close>

definition springFactor :: "nat \<Rightarrow> jsnum \<Rightarrow> jsnum" where
  "springFactor len tlen = js_div (of_nat len - 1) (js_pred tlen)"

text \<open>The body of the interpolation loop: the value stored at \<open>resampledData[i]\<close>.\<close>

definition interpolate :: "rat list \<Rightarrow> jsnum \<Rightarrow> nat \<Rightarrow> f32" where
  "interpolate data sf i =
     (case sf of
        Fin s \<Rightarrow>
          (let index = of_nat i * s;
               leftIndex = \<lfloor>index\<rfloor>;
               rightIndex = \<lceil>index\<rceil>;
               fraction = index - of_int leftIndex
           in f_add (load data leftIndex)
                (f_mul (f_sub (load data rightIndex) (load data leftIndex)) (Some fraction)))
      | _ \<Rightarrow> None)"

text \<open>
  The function itself. The two endpoint writes come first, in the order of the source,
  then the loop \<^verbatim>\<open>for (let i = 1; i < targetLength - 1; i++)\<close>. The index
  \<^verbatim>\<open>targetLength - 1\<close> is \<open>int n - 1\<close> for the array length \<open>n\<close>; when
  \<^verbatim>\<open>targetLength\<close> is NaN the array is empty and the write is ignored either way.
\<close>

definition resampleTo16kHZ :: "rat list \<Rightarrow> rat \<Rightarrow> js_error + f32 list" where
  "resampleTo16kHZ audioData origSampleRate =
     (let data = audioData;
          tlen = targetLength (length data) origSampleRate
      in case new_Float32Array tlen of
           Inl e \<Rightarrow> Inl e
         | Inr resampledData \<Rightarrow>
             (let n = length resampledData;
                  sf = springFactor (length data) tlen;
                  r1 = store resampledData 0 (load data 0);
                  r2 = store r1 (int n - 1) (load data (int (length data) - 1))
              in Inr (foldl (\<lambda>r i. store r (int i) (interpolate data sf i)) r2 [1 ..< n - 1])))"


text \<open>Whether a number is finite, that is, neither an infinity nor NaN.\<close>

fun is_finite :: "jsnum \<Rightarrow> bool" where
  "is_finite (Fin x) = True"
| "is_finite y = False"


section \<open>The streaming session (\<^verbatim>\<open>startRecord\<close>, options.js)\<close>

text \<open>
  Inbound frames are JSON objects with the fields of the wire protocol, each of them
  optional: \<open>None\<close> is an absent (or \<^verbatim>\<open>null\<close>) field. A frame that
  \<^verbatim>\<open>JSON.parse\<close> rejects is \<open>Unparseable\<close>.
\<close>

record segment =
  seg_text :: "string option"

record server_msg =
  m_uid :: "string option"
  m_status :: "string option"
  m_message :: "string option"
  m_backend :: "string option"
  m_language :: "string option"
  m_language_prob :: "rat option"
  m_segments :: "segment list option"

datatype frame = Unparseable | Json server_msg

text \<open>The fields of \<^verbatim>\<open>options\<close> that \<^verbatim>\<open>startRecord\<close> reads after the capture.\<close>

record capture_options =
  opt_language :: "string option"
  opt_task :: string
  opt_modelSize :: string
  opt_useVad :: bool
  opt_currentTabId :: nat

record config =
  cfg_uid :: string
  cfg_language :: "string option"
  cfg_task :: string
  cfg_model :: string
  cfg_use_vad :: bool

datatype ws_state = CONNECTING | OPEN | CLOSING | CLOSED

text \<open>
  The variables the handlers of one \<^verbatim>\<open>startRecord\<close> call close over:
  \<^verbatim>\<open>uuid\<close>, \<^verbatim>\<open>isServerReady\<close>, \<^verbatim>\<open>language\<close> (\<open>None\<close> is
  \<^verbatim>\<open>null\<close>), the socket's \<^verbatim>\<open>readyState\<close>, the audio context's sample
  rate and the options.
\<close>

record session =
  uuid :: string
  isServerReady :: bool
  language :: "string option"
  readyState :: ws_state
  sampleRate :: rat
  options :: capture_options

datatype status_target = Connection | Server | Audio

text \<open>
  The texts \<^verbatim>\<open>updateStatus\<close> is called with, one constructor for each template of
  the source, carrying the values the template interpolates (the close code and reason of
  \<^verbatim>\<open>onclose\<close> and the text of a caught error are left out).
\<close>

datatype status_text =
    WebSocketEstablished
  | ConnectedToServer
  | SentConfiguration config
  | ConnectionClosed
  | Disconnected
  | WebSocketError
  | ConnectionError
  | ForeignClient
  | ServerBusy "string option"
  | ReadyForTranscription
  | ReadyWithBackend "string option"
  | DetectedLanguage string "rat option"
  | ServerOvertime
  | Transcription "string option"
  | ErrorProcessingMessage
  | ProcessingAudio
  | SilenceDetected
  | ErrorProcessingAudio

text \<open>
  What a handler does to the outside, in the order of the source: status lines
  (\<^verbatim>\<open>updateStatus(type, message, isError)\<close>), messages to the extension
  (\<^verbatim>\<open>chrome.runtime.sendMessage\<close>), messages to the captured tab
  (\<^verbatim>\<open>sendMessageToTab\<close>) and frames written to the socket (\<^verbatim>\<open>socket.send\<close>).
\<close>

datatype effect =
    UpdateStatus status_target status_text bool
  | SocketSendConfig config
  | SocketSendAudio "f32 list"
  | ToggleCaptureButtons bool
  | StopCapture
  | UpdateSelectedLanguage string
  | TabShowWaitPopup nat "string option"
  | TabTranscript nat server_msg

text \<open>A string used as a condition: absent, null and the empty string are falsy.\<close>

fun truthy :: "string option \<Rightarrow> bool" where
  "truthy None = False"
| "truthy (Some s) = (s \<noteq> [])"

text \<open>The state right after \<^verbatim>\<open>new WebSocket(...)\<close>, for a generated uuid.\<close>

definition startRecord :: "capture_options \<Rightarrow> string \<Rightarrow> rat \<Rightarrow> session" where
  "startRecord opts generated rate =
     \<lparr>uuid = generated, isServerReady = False, language = opt_language opts,
      readyState = CONNECTING, sampleRate = rate, options = opts\<rparr>"

definition onopen :: "session \<Rightarrow> session \<times> effect list" where
  "onopen s =
     (let cfg = \<lparr>cfg_uid = uuid s, cfg_language = opt_language (options s),
                 cfg_task = opt_task (options s), cfg_model = opt_modelSize (options s),
                 cfg_use_vad = opt_useVad (options s)\<rparr>
      in (s, [UpdateStatus Connection WebSocketEstablished False,
              UpdateStatus Server ConnectedToServer False,
              SocketSendConfig cfg,
              UpdateStatus Server (SentConfiguration cfg) False]))"

definition onclose :: "session \<Rightarrow> session \<times> effect list" where
  "onclose s =
     (s, [UpdateStatus Connection ConnectionClosed True,
          UpdateStatus Server Disconnected True,
          ToggleCaptureButtons False])"

definition onerror :: "session \<Rightarrow> session \<times> effect list" where
  "onerror s =
     (s, [UpdateStatus Connection WebSocketError True,
          UpdateStatus Server ConnectionError True,
          ToggleCaptureButtons False])"

text \<open>
  \<^verbatim>\<open>socket.onmessage\<close>: the checks in the order of the source, each branch ending in
  \<^verbatim>\<open>return\<close>. Only \<^verbatim>\<open>JSON.parse\<close> can throw; the \<^verbatim>\<open>catch\<close> reports it.
\<close>

definition onmessage :: "session \<Rightarrow> frame \<Rightarrow> session \<times> effect list" where
  "onmessage s fr =
     (case fr of
        Unparseable \<Rightarrow> (s, [UpdateStatus Server ErrorProcessingMessage True])
      | Json data \<Rightarrow>
          if m_uid data \<noteq> Some (uuid s) then
            (s, [UpdateStatus Server ForeignClient True])
          else if m_status data = Some ''WAIT'' then
            (s, [UpdateStatus Server (ServerBusy (m_message data)) False,
                 TabShowWaitPopup (opt_currentTabId (options s)) (m_message data),
                 ToggleCaptureButtons False, StopCapture])
          else if \<not> isServerReady s \<and> m_message data = Some ''SERVER_READY'' then
            (s\<lparr>isServerReady := True\<rparr>,
             [UpdateStatus Connection ReadyForTranscription False,
              UpdateStatus Server (ReadyWithBackend (m_backend data)) False])
          else if language s = None \<and> truthy (m_language data) then
            (s\<lparr>language := m_language data\<rparr>,
             [UpdateStatus Server
                (DetectedLanguage (the (m_language data)) (m_language_prob data)) False,
              UpdateSelectedLanguage (the (m_language data))])
          else if m_message data = Some ''DISCONNECT'' then
            (s, [UpdateStatus Server ServerOvertime False, ToggleCaptureButtons False])
          else
            (case m_segments data of
               Some segments \<Rightarrow>
                 (s, (if 0 < length segments
                      then [UpdateStatus Server (Transcription (seg_text (last segments))) False]
                      else [])
                     @ [TabTranscript (opt_currentTabId (options s)) data])
             | None \<Rightarrow> (s, [])))"

text \<open>
  \<^verbatim>\<open>inputData.some(sample => Math.abs(sample) > 0.01)\<close>. The threshold is taken as
  \<open>1 / 100\<close>; no 32-bit float lies between it and the double written \<^verbatim>\<open>0.01\<close>.
\<close>

definition hasAudio :: "rat list \<Rightarrow> bool" where
  "hasAudio inputData = list_ex (\<lambda>sample. \<bar>sample\<bar> > 1 / 100) inputData"

text \<open>
  \<^verbatim>\<open>processor.onaudioprocess\<close>. The audio context is a constant of the closure and
  never null, so the first test is the readiness test alone.
\<close>

definition onaudioprocess :: "session \<Rightarrow> rat list \<Rightarrow> session \<times> effect list" where
  "onaudioprocess s inputData =
     (if \<not> isServerReady s then (s, [])
      else if hasAudio inputData then
        (case resampleTo16kHZ inputData (sampleRate s) of
           Inl e \<Rightarrow>
             (s, [UpdateStatus Audio ProcessingAudio False,
                  UpdateStatus Audio ErrorProcessingAudio True])
         | Inr audioData16kHz \<Rightarrow>
             (s, UpdateStatus Audio ProcessingAudio False #
                 (if readyState s = OPEN then [SocketSendAudio audioData16kHz] else [])))
      else (s, [UpdateStatus Audio SilenceDetected False]))"

text \<open>
  The events of the single-threaded loop: the browser sets the socket's state before it
  calls \<^verbatim>\<open>onopen\<close> and \<^verbatim>\<open>onclose\<close>.
\<close>

datatype event =
    SocketOpen
  | SocketClose
  | SocketError
  | SocketMessage frame
  | AudioProcess "rat list"

fun step :: "session \<Rightarrow> event \<Rightarrow> session \<times> effect list" where
  "step s SocketOpen = onopen (s\<lparr>readyState := OPEN\<rparr>)"
| "step s SocketClose = onclose (s\<lparr>readyState := CLOSED\<rparr>)"
| "step s SocketError = onerror s"
| "step s (SocketMessage fr) = onmessage s fr"
| "step s (AudioProcess inputData) = onaudioprocess s inputData"

text \<open>
  Handlers run one after the other and the effects are collected in order. The message
  handler is asynchronous, but it assigns \<^verbatim>\<open>isServerReady\<close> and
  \<^verbatim>\<open>language\<close> only in branches without an \<^verbatim>\<open>await\<close>, so taking each
  handler as one step changes nothing in the state it leaves.
\<close>

fun run :: "session \<Rightarrow> event list \<Rightarrow> session \<times> effect list" where
  "run s [] = (s, [])"
| "run s (e # es) =
     (let (s1, out1) = step s e; (s2, out2) = run s1 es in (s2, out1 @ out2))"

text \<open>The binary audio frames among the effects.\<close>

fun audio_frames :: "effect list \<Rightarrow> f32 list list" where
  "audio_frames [] = []"
| "audio_frames (SocketSendAudio a # effs) = a # audio_frames effs"
| "audio_frames (x # effs) = audio_frames effs"

fun is_audio :: "event \<Rightarrow> bool" where
  "is_audio (AudioProcess b) = True"
| "is_audio e = False"

fun is_tab_transcript :: "effect \<Rightarrow> bool" where
  "is_tab_transcript (TabTranscript t d) = True"
| "is_tab_transcript x = False"

text \<open>A frame whose \<^verbatim>\<open>message\<close> field is the literal that announces readiness.\<close>

fun announces_ready :: "event \<Rightarrow> bool" where
  "announces_ready (SocketMessage (Json data)) = (m_message data = Some ''SERVER_READY'')"
| "announces_ready e = False"

text \<open>How many events of a run change the value of \<^verbatim>\<open>language\<close>.\<close>

fun language_changes :: "session \<Rightarrow> event list \<Rightarrow> nat" where
  "language_changes s [] = 0"
| "language_changes s (e # es) =
     (if language (fst (step s e)) \<noteq> language s then 1 else 0)
       + language_changes (fst (step s e)) es"


text \<open>Sample inputs: a frame addressed to a client with every other field absent, and options.\<close>

definition frame_for :: "string \<Rightarrow> server_msg" where
  "frame_for u =
     \<lparr>m_uid = Some u, m_status = None, m_message = None, m_backend = None,
      m_language = None, m_language_prob = None, m_segments = None\<rparr>"

definition sample_options :: "string option \<Rightarrow> capture_options" where
  "sample_options lang =
     \<lparr>opt_language = lang, opt_task = ''transcribe'', opt_modelSize = ''small'',
      opt_useVad = True, opt_currentTabId = 7\<rparr>"

text \<open>A session whose socket is open and whose server has announced readiness.\<close>

definition ready_session :: session where
  "ready_session =
     fst (run (startRecord (sample_options None) ''u'' 48000)
            [SocketOpen,
             SocketMessage (Json ((frame_for ''u'')\<lparr>m_message := Some ''SERVER_READY''\<rparr>))])"


section \<open>The transcript overlay (content script)\<close>

text \<open>
  Strings are lists of characters. The layout engine is a parameter: the height the hidden
  element \<^verbatim>\<open>t3\<close> reports (\<^verbatim>\<open>offsetHeight\<close>) for a given content, and what
  \<^verbatim>\<open>parseInt\<close> makes of its computed \<^verbatim>\<open>line-height\<close> (\<open>None\<close> is NaN).
  Writing a string to \<^verbatim>\<open>innerHTML\<close> and reading it back is taken to return the
  string (text without markup).
\<close>

record layout =
  offsetHeight :: "string \<Rightarrow> nat"
  lineHeightStyle :: "int option"

text \<open>\<^verbatim>\<open>s.substring(a, b)\<close>: both indices clamped to the string, swapped when \<open>a > b\<close>.\<close>

definition substring :: "string \<Rightarrow> int \<Rightarrow> int \<Rightarrow> string" where
  "substring s a b =
     (let n = int (length s);
          a' = max 0 (min a n);
          b' = max 0 (min b n);
          lo = min a' b';
          hi = max a' b'
      in take (nat (hi - lo)) (drop (nat lo) s))"

text \<open>\<^verbatim>\<open>s.split(' ')\<close>: never empty, \<open>k\<close> spaces give \<open>k + 1\<close> words.\<close>

fun split_space :: "string \<Rightarrow> string list" where
  "split_space [] = [[]]"
| "split_space (c # cs) =
     (if c = CHR '' '' then [] # split_space cs
      else (case split_space cs of
              w # ws \<Rightarrow> (c # w) # ws
            | [] \<Rightarrow> [[c]]))"

text \<open>
  The test \<^verbatim>\<open>(element.offsetHeight / lineHeight) > currentLines\<close>; a division by a
  zero line height gives Infinity for a positive height and NaN, which compares false,
  for height zero.
\<close>

definition exceeds :: "nat \<Rightarrow> int \<Rightarrow> nat \<Rightarrow> bool" where
  "exceeds h lineHeight currentLines =
     (if lineHeight = 0 then 0 < h
      else (of_nat h / of_int lineHeight :: rat) > of_nat currentLines)"

text \<open>
  The loop of \<^verbatim>\<open>getLines\<close> over the remaining words, on the variables
  \<^verbatim>\<open>segments\<close>, \<^verbatim>\<open>currentLines\<close>, \<^verbatim>\<open>segment\<close> and \<^verbatim>\<open>segmentLen\<close>.
\<close>

fun getLines_loop ::
  "(string \<Rightarrow> nat) \<Rightarrow> int \<Rightarrow> string list \<Rightarrow> string list \<times> nat \<times> string \<times> nat
     \<Rightarrow> string list \<times> nat \<times> string \<times> nat" where
  "getLines_loop oh lineHeight [] st = st"
| "getLines_loop oh lineHeight (w # ws) (segments, currentLines, segment, segmentLen) =
     (let segment1 = segment @ w @ '' '' in
      if exceeds (oh segment1) lineHeight currentLines then
        (let lineSegment =
               substring segment1 (int segmentLen)
                 (int (length segment1) - 1 - int (length w) - 1)
         in getLines_loop oh lineHeight ws
              (segments @ [lineSegment], currentLines + 1, segment1,
               segmentLen + length lineSegment + 1))
      else getLines_loop oh lineHeight ws (segments, currentLines, segment1, segmentLen))"

text \<open>\<^verbatim>\<open>getLines(element, lineHeight)\<close>; the element is given by its content, \<open>None\<close> when absent.\<close>

definition getLines :: "(string \<Rightarrow> nat) \<Rightarrow> string option \<Rightarrow> int \<Rightarrow> string list" where
  "getLines oh element lineHeight =
     (case element of
        None \<Rightarrow> []
      | Some originalText \<Rightarrow>
          (let words = split_space originalText;
               (segments, currentLines, segment, segmentLen) =
                  getLines_loop oh lineHeight words ([], 1, [], 0);
               lastSegment = substring segment (int segmentLen) (int (length segment) - 1)
           in segments @ [lastSegment]))"

text \<open>\<^verbatim>\<open>text.replace(/(\r\n|\n|\r)/gm, " ")\<close>.\<close>

fun replace_breaks :: "string \<Rightarrow> string" where
  "replace_breaks [] = []"
| "replace_breaks [c] = (if c = CHR 0x0D \<or> c = CHR 0x0A then '' '' else [c])"
| "replace_breaks (c # d # cs) =
     (if c = CHR 0x0D \<and> d = CHR 0x0A then CHR '' '' # replace_breaks cs
      else if c = CHR 0x0D \<or> c = CHR 0x0A then CHR '' '' # replace_breaks (d # cs)
      else c # replace_breaks (d # cs))"

text \<open>
  The white space \<^verbatim>\<open>trim\<close> removes, among the characters below 256: tab, line feed,
  vertical tab, form feed, carriage return, space and no-break space.
\<close>

definition is_space :: "char \<Rightarrow> bool" where
  "is_space c =
     (c = CHR 0x09 \<or> c = CHR 0x0A \<or> c = CHR 0x0B \<or> c = CHR 0x0C \<or> c = CHR 0x0D
      \<or> c = CHR '' '' \<or> c = CHR 0xA0)"

definition trim :: "string \<Rightarrow> string" where
  "trim s = rev (dropWhile is_space (rev (dropWhile is_space s)))"

datatype popup = WaitTime "string option" | ErrorMessage

text \<open>
  The state of the content script that the listener reads or writes: whether the overlay
  exists (\<^verbatim>\<open>transcriptionContainer\<close>), the global \<^verbatim>\<open>textSegments\<close>, the
  contents of the three visible elements \<^verbatim>\<open>t0\<close>, \<^verbatim>\<open>t1\<close>, \<^verbatim>\<open>t2\<close>, and the
  popup. The global \<^verbatim>\<open>transcriptionSegments\<close> is never read or written. The
  vertical positions the update assigns to the elements are not modelled.
\<close>

record overlay =
  transcriptionContainer :: bool
  textSegments :: "string list"
  textElements :: "string list"
  popupShown :: "popup option"

definition initial_overlay :: overlay where
  "initial_overlay =
     \<lparr>transcriptionContainer = False, textSegments = [], textElements = [],
      popupShown = None\<rparr>"

text \<open>\<^verbatim>\<open>textSegments.slice(Math.max(0, textSegments.length - 3))\<close>.\<close>

definition segmentsToShow :: "string list \<Rightarrow> string list" where
  "segmentsToShow segs = drop (nat (max 0 (int (length segs) - 3))) segs"

text \<open>
  \<^verbatim>\<open>segmentsToShow.forEach((segment, index) => ...)\<close>, from position \<open>index\<close> on:
  an element that does not exist is skipped.
\<close>

fun show_segments :: "string list \<Rightarrow> nat \<Rightarrow> string list \<Rightarrow> string list" where
  "show_segments els index [] = els"
| "show_segments els index (segment # rest) =
     show_segments (if index < length els then els[index := segment] else els)
       (index + 1) rest"

definition lineHeight_of :: "layout \<Rightarrow> int" where
  "lineHeight_of L =
     (case lineHeightStyle L of
        None \<Rightarrow> 24
      | Some n \<Rightarrow> if n = 0 then 24 else n)"

definition updateTranscription :: "layout \<Rightarrow> string \<Rightarrow> overlay \<Rightarrow> overlay" where
  "updateTranscription L text0 v =
     (let text1 = replace_breaks text0;
          lineHeight = lineHeight_of L;
          lines = getLines (offsetHeight L) (Some text1) lineHeight;
          cleared = replicate 3 []
      in v\<lparr>transcriptionContainer := True,
           textSegments := lines,
           textElements := show_segments cleared 0 (segmentsToShow lines)\<rparr>)"

text \<open>The loop that builds the text of one batch: \<^verbatim>\<open>text += segment.text + ' '\<close>.\<close>

definition batch_text :: "segment list \<Rightarrow> string" where
  "batch_text segments =
     foldl (\<lambda>acc seg. if truthy (seg_text seg) then acc @ the (seg_text seg) @ '' '' else acc)
       [] segments"

datatype content_msg = STOP | ShowWaitPopup "string option" | Transcript frame | Other

text \<open>The listener of the content script; a thrown error shows the error popup.\<close>

fun content_listener :: "layout \<Rightarrow> overlay \<Rightarrow> content_msg \<Rightarrow> overlay" where
  "content_listener L v STOP = v\<lparr>transcriptionContainer := False, textElements := []\<rparr>"
| "content_listener L v (ShowWaitPopup d) = v\<lparr>popupShown := Some (WaitTime d)\<rparr>"
| "content_listener L v (Transcript Unparseable) = v\<lparr>popupShown := Some ErrorMessage\<rparr>"
| "content_listener L v (Transcript (Json message)) =
     (case m_segments message of
        None \<Rightarrow> v
      | Some segments \<Rightarrow>
          if 0 < length segments then
            (let text0 = batch_text segments
             in if trim text0 \<noteq> [] then updateTranscription L text0 v else v)
          else v)"
| "content_listener L v Other = v"

text \<open>Messages are handled one after the other, each on the state the previous one left.\<close>

definition deliver :: "layout \<Rightarrow> overlay \<Rightarrow> content_msg list \<Rightarrow> overlay" where
  "deliver L v msgs = foldl (content_listener L) v msgs"

text \<open>\<^verbatim>\<open>lines.join(' ')\<close>.\<close>

fun join_space :: "string list \<Rightarrow> string" where
  "join_space [] = []"
| "join_space [l] = l"
| "join_space (l # ls) = l @ '' '' @ join_space ls"

text \<open>A batch of segments with the given texts, as the session forwards it.\<close>

definition batch :: "string list \<Rightarrow> content_msg" where
  "batch texts =
     Transcript (Json ((frame_for ''u'')\<lparr>m_segments := Some (map (\<lambda>t. \<lparr>seg_text = Some t\<rparr>) texts)\<rparr>))"

text \<open>A layout that wraps after every eight characters, with lines 24 pixels high.\<close>

definition narrow_layout :: layout where
  "narrow_layout =
     \<lparr>offsetHeight = (\<lambda>s. 24 * ((length s + 7) div 8)), lineHeightStyle = Some 24\<rparr>"


section \<open>Properties of the resampler\<close>

lemma length_store [simp]: "length (store arr i v) = length arr"
  by (simp add: store_def)

lemma length_foldl_store [simp]:
  "length (foldl (\<lambda>r i. store r (int i) (f i)) r js) = length r"
  by (induction js arbitrary: r) simp_all

lemma nth_foldl_store_other:
  "k \<notin> set js \<Longrightarrow> foldl (\<lambda>r i. store r (int i) (f i)) r js ! k = r ! k"
  by (induction js arbitrary: r) (simp_all add: store_def)

lemma targetLength_pos:
  assumes "0 < rate"
  shows "targetLength len rate = Fin (of_int \<lfloor>of_nat len * (16000 / rate) + 1 / 2\<rfloor>)"
    and "0 \<le> \<lfloor>of_nat len * (16000 / rate) + 1 / 2\<rfloor>"
proof -
  show "targetLength len rate = Fin (of_int \<lfloor>of_nat len * (16000 / rate) + 1 / 2\<rfloor>)"
    using assms by (simp add: targetLength_def)
  have "0 \<le> of_nat len * (16000 / rate)" using assms by simp
  then show "0 \<le> \<lfloor>of_nat len * (16000 / rate) + 1 / 2\<rfloor>" by simp
qed

lemma new_Float32Array_empty_input:
  "new_Float32Array (targetLength 0 rate) = Inr []"
  by (simp add: targetLength_def)

lemma resample_result:
  assumes "new_Float32Array (targetLength (length data) rate) = Inr arr"
  shows "resampleTo16kHZ data rate =
           Inr (foldl (\<lambda>r i. store r (int i)
                   (interpolate data (springFactor (length data) (targetLength (length data) rate)) i))
                 (store (store arr 0 (load data 0)) (int (length arr) - 1)
                    (load data (int (length data) - 1)))
                 [1 ..< length arr - 1])"
  using assms by (simp add: resampleTo16kHZ_def Let_def)

lemma resample_Inr:
  assumes "resampleTo16kHZ data rate = Inr out"
  obtains arr where "new_Float32Array (targetLength (length data) rate) = Inr arr"
  using assms by (auto simp: resampleTo16kHZ_def Let_def split: sum.splits)

lemma resample_returns:
  assumes "0 < rate"
  shows "\<exists>out. resampleTo16kHZ data rate = Inr out
           \<and> length out = nat \<lfloor>of_nat (length data) * (16000 / rate) + 1 / 2\<rfloor>"
proof -
  let ?k = "\<lfloor>of_nat (length data) * (16000 / rate) + 1 / 2\<rfloor>"
  have tl: "targetLength (length data) rate = Fin (of_int ?k)" and k: "0 \<le> ?k"
    using targetLength_pos [OF assms] by simp_all
  have arr: "new_Float32Array (targetLength (length data) rate) = Inr (replicate (nat ?k) (Some 0))"
    using k by (simp add: tl)
  show ?thesis using resample_result [OF arr] by simp
qed

text \<open>
  C8, as the code has it. Whenever the resampler returns a non-empty output, the input
  is non-empty and the last output sample is the last input sample; the first output
  sample is the first input sample whenever the output has at least two samples. With a
  single output sample the second endpoint write lands on the first, so the sample is
  the last input sample.
\<close>

theorem resampler_copies_endpoints:
  assumes r: "resampleTo16kHZ data rate = Inr out" and ne: "out \<noteq> []"
  shows "data \<noteq> [] \<and> last out = Some (last data) \<and>
         (2 \<le> length out \<longrightarrow> hd out = Some (hd data))"
proof -
  from r obtain arr where arr: "new_Float32Array (targetLength (length data) rate) = Inr arr"
    by (rule resample_Inr)
  let ?f = "interpolate data (springFactor (length data) (targetLength (length data) rate))"
  let ?r2 = "store (store arr 0 (load data 0)) (int (length arr) - 1)
                    (load data (int (length data) - 1))"
  have out: "out = foldl (\<lambda>r i. store r (int i) (?f i)) ?r2 [1 ..< length arr - 1]"
    using resample_result [OF arr] r by simp
  have len: "length out = length arr" by (simp add: out)
  with ne have n: "0 < length arr" by (cases arr) auto
  have d: "data \<noteq> []"
  proof
    assume "data = []"
    then have "arr = []" using arr new_Float32Array_empty_input [of rate] by simp
    with n show False by simp
  qed
  have "out ! (length arr - 1) = ?r2 ! (length arr - 1)"
    unfolding out by (rule nth_foldl_store_other) simp
  also have "\<dots> = load data (int (length data) - 1)"
  proof -
    have "nat (int (length arr) - 1) = length arr - 1" using n by linarith
    then show ?thesis using n by (simp add: store_def)
  qed
  also have "\<dots> = Some (last data)"
    using d by (simp add: load_def last_conv_nth nat_diff_distrib')
  finally have l: "last out = Some (last data)"
    using ne len by (simp add: last_conv_nth)
  have h: "hd out = Some (hd data)" if "2 \<le> length out"
  proof -
    have "out ! 0 = ?r2 ! 0"
      unfolding out by (rule nth_foldl_store_other) simp
    also have "\<dots> = load data 0"
    proof -
      have "nat (int (length arr) - 1) = length arr - 1" "length arr - 1 \<noteq> 0" "arr \<noteq> []"
        using that len by auto
      then show ?thesis by (simp add: store_def)
    qed
    also have "\<dots> = Some (hd data)"
      using d by (simp add: load_def hd_conv_nth)
    finally show ?thesis using ne by (simp add: hd_conv_nth)
  qed
  from d l h show ?thesis by blast
qed

theorem resampler_copies_endpoints_witness:
  "resampleTo16kHZ [1, 2, 3, 4, 5, 6] 48000 = Inr [Some 1, Some 6]
   \<and> last [Some 1, Some (6 :: rat)] = Some (last [1, 2, 3, 4, 5, 6])
   \<and> hd [Some 1, Some (6 :: rat)] = Some (hd [1, 2, 3, 4, 5, 6])"
proof -
  have r: "resampleTo16kHZ [1, 2, 3, 4, 5, 6] 48000 = Inr [Some 1, Some 6]"
    by code_simp
  have ne: "[Some 1, Some (6 :: rat)] \<noteq> []" by simp
  from resampler_copies_endpoints [OF r ne] r show ?thesis by simp
qed

text \<open>
  Two samples at 32 kHz give one output sample, and it is the second input sample, not
  the first.
\<close>

theorem single_output_sample_is_last_input:
  "resampleTo16kHZ [1, 2] 32000 = Inr [Some 2] \<and> hd [Some 2] \<noteq> Some (hd [1, 2 :: rat])"
  by code_simp

text \<open>
  C9, as the code has it. For a positive source rate the resampler returns for every
  input. An empty input gives an empty output, and the spring factor is then
  \<open>-1 / -1 = 1\<close>, no division by zero. Nothing guards output length one: the spring
  factor is finite exactly when the output length is not one. (The loop does not run
  then, so the quotient is never used.)
\<close>

theorem resampler_no_error_conditions:
  assumes "0 < rate"
  shows "\<exists>out. resampleTo16kHZ data rate = Inr out \<and>
           (data = [] \<longrightarrow> out = [] \<and>
              springFactor (length data) (targetLength (length data) rate) = Fin 1) \<and>
           (is_finite (springFactor (length data) (targetLength (length data) rate))
              \<longleftrightarrow> length out \<noteq> 1)"
proof -
  let ?k = "\<lfloor>of_nat (length data) * (16000 / rate) + 1 / 2\<rfloor>"
  have tl: "targetLength (length data) rate = Fin (of_int ?k)" and k: "0 \<le> ?k"
    using targetLength_pos [OF assms] by simp_all
  from resample_returns [OF assms, of data]
  obtain out where res: "resampleTo16kHZ data rate = Inr out" and len: "length out = nat ?k"
    by blast
  have e: "out = [] \<and> springFactor (length data) (targetLength (length data) rate) = Fin 1"
    if "data = []"
  proof -
    have "?k = 0" using that by (simp add: floor_eq_iff)
    then have t0: "targetLength (length data) rate = Fin 0" and k0: "nat ?k = 0"
      using tl by simp_all
    have "length out = 0" by (rule trans [OF len k0])
    then have "out = []" by (simp only: length_0_conv)
    moreover have "springFactor (length data) (targetLength (length data) rate) = Fin 1"
      unfolding t0 using that by (simp add: springFactor_def)
    ultimately show ?thesis by simp
  qed
  have f: "is_finite (springFactor (length data) (targetLength (length data) rate))
             \<longleftrightarrow> length out \<noteq> 1"
  proof -
    have "(rat_of_int ?k - 1 = 0) = (?k = 1)" by linarith
    then show ?thesis unfolding len using k by (auto simp add: springFactor_def tl)
  qed
  from res e f show ?thesis by blast
qed

theorem resampler_no_error_conditions_witness:
  "(0 :: rat) < 48000 \<and> resampleTo16kHZ [] 48000 = Inr []
   \<and> springFactor (length ([] :: rat list)) (targetLength (length ([] :: rat list)) 48000) = Fin 1"
proof -
  have p: "(0 :: rat) < 48000" by simp
  from resampler_no_error_conditions [OF p, of "[]"] p show ?thesis by auto
qed

text \<open>
  Four samples at 64 kHz give one output sample: the spring factor is \<open>3 / 0\<close>,
  an infinity.
\<close>

theorem spring_factor_divides_by_zero:
  "resampleTo16kHZ [1, 2, 3, 4] 64000 = Inr [Some 4] \<and>
   springFactor (length [1, 2, 3, 4 :: rat]) (targetLength (length [1, 2, 3, 4 :: rat]) 64000)
     = PosInf"
  by code_simp


section \<open>Properties of the streaming session\<close>

lemma onaudioprocess_state: "fst (onaudioprocess s b) = s"
  by (simp add: onaudioprocess_def split: sum.splits)

lemma onaudioprocess_not_ready: "\<not> isServerReady s \<Longrightarrow> onaudioprocess s b = (s, [])"
  by (simp add: onaudioprocess_def)

lemma onmessage_frames: "audio_frames (snd (onmessage s fr)) = []"
  by (simp add: onmessage_def split: frame.splits option.splits)

lemma step_frames_not_ready:
  "\<not> isServerReady s \<Longrightarrow> audio_frames (snd (step s e)) = []"
  by (cases e)
     (simp_all add: onopen_def onclose_def onerror_def onmessage_frames
        onaudioprocess_not_ready Let_def)

lemma onmessage_ready_mono: "isServerReady s \<Longrightarrow> isServerReady (fst (onmessage s fr))"
  by (simp add: onmessage_def split: frame.splits option.splits)

lemma step_ready_mono: "isServerReady s \<Longrightarrow> isServerReady (fst (step s e))"
  by (cases e)
     (simp_all add: onopen_def onclose_def onerror_def onmessage_ready_mono
        onaudioprocess_state Let_def)

lemma run_Cons:
  "run s (e # es) =
     (fst (run (fst (step s e)) es), snd (step s e) @ snd (run (fst (step s e)) es))"
  by (simp add: case_prod_beta)

lemma run_ready_mono: "isServerReady s \<Longrightarrow> isServerReady (fst (run s es))"
proof (induction es arbitrary: s)
  case Nil
  then show ?case by simp
next
  case (Cons e es)
  then show ?case by (simp only: run_Cons fst_conv step_ready_mono)
qed

lemma audio_frames_append: "audio_frames (xs @ ys) = audio_frames xs @ audio_frames ys"
  by (induction xs rule: audio_frames.induct) simp_all

lemma run_frames_not_ready:
  "\<not> isServerReady (fst (run s es)) \<Longrightarrow> audio_frames (snd (run s es)) = []"
proof (induction es arbitrary: s)
  case Nil
  then show ?case by simp
next
  case (Cons e es)
  have later: "\<not> isServerReady (fst (run (fst (step s e)) es))"
    using Cons.prems unfolding run_Cons by simp
  have now: "\<not> isServerReady s"
  proof
    assume "isServerReady s"
    then have "isServerReady (fst (run s (e # es)))" by (rule run_ready_mono)
    with Cons.prems show False by simp
  qed
  show ?case
    by (simp only: run_Cons snd_conv audio_frames_append
          step_frames_not_ready [OF now] Cons.IH [OF later] append_Nil)
qed

lemma step_audio_state: "fst (step s (AudioProcess b)) = s"
  by (simp add: onaudioprocess_state)

lemma run_state_without_audio:
  "fst (run s es) = fst (run s (filter (\<lambda>e. \<not> is_audio e) es))"
proof (induction es arbitrary: s)
  case Nil
  then show ?case by simp
next
  case (Cons e es)
  show ?case
  proof (cases "is_audio e")
    case True
    then obtain b where e: "e = AudioProcess b" by (cases e) simp_all
    show ?thesis using Cons.IH [of s]
      by (simp only: e run_Cons fst_conv step_audio_state filter.simps is_audio.simps
            not_True_eq_False if_False)
  next
    case False
    then show ?thesis using Cons.IH [of "fst (step s e)"]
      by (simp only: run_Cons fst_conv filter.simps if_True not_False_eq_True)
  qed
qed

lemma ready_session_eq:
  "ready_session = \<lparr>uuid = ''u'', isServerReady = True, language = None, readyState = OPEN,
     sampleRate = 48000, options = sample_options None\<rparr>"
  by (simp add: ready_session_def startRecord_def sample_options_def frame_for_def onopen_def
        onmessage_def Let_def)

text \<open>
  C1. As long as \<^verbatim>\<open>isServerReady\<close> is still false after a sequence of events, that
  is, no SERVER_READY frame has been processed, no audio frame has been written to the
  socket during it, whatever audio blocks it delivered. A further block is dropped on
  the spot: the handler returns with no effect and the same state. Nothing is queued:
  the state a run leaves is the one it leaves with all audio blocks removed.
\<close>

theorem audio_before_ready_never_sent:
  assumes "\<not> isServerReady (fst (run s es))"
  shows "audio_frames (snd (run s es)) = []
         \<and> step (fst (run s es)) (AudioProcess block) = (fst (run s es), [])
         \<and> fst (run s es) = fst (run s (filter (\<lambda>e. \<not> is_audio e) es))"
  using assms run_frames_not_ready [OF assms] run_state_without_audio [of s es]
  by (simp add: onaudioprocess_not_ready)

theorem audio_before_ready_never_sent_witness:
  "\<not> isServerReady (fst (run (startRecord (sample_options None) ''u'' 48000)
       [SocketOpen, AudioProcess [1 / 2, 1 / 2, 1 / 2],
        SocketMessage (Json ((frame_for ''v'')\<lparr>m_message := Some ''SERVER_READY''\<rparr>)),
        AudioProcess [1, 1, 1]]))
   \<and> audio_frames (snd (run (startRecord (sample_options None) ''u'' 48000)
       [SocketOpen, AudioProcess [1 / 2, 1 / 2, 1 / 2],
        SocketMessage (Json ((frame_for ''v'')\<lparr>m_message := Some ''SERVER_READY''\<rparr>)),
        AudioProcess [1, 1, 1]])) = []"
  using audio_before_ready_never_sent [of "startRecord (sample_options None) ''u'' 48000"
       "[SocketOpen, AudioProcess [1 / 2, 1 / 2, 1 / 2],
         SocketMessage (Json ((frame_for ''v'')\<lparr>m_message := Some ''SERVER_READY''\<rparr>)),
         AudioProcess [1, 1, 1]]"]
  by (simp add: startRecord_def sample_options_def frame_for_def onopen_def onmessage_def
        onaudioprocess_def Let_def)

lemma onaudioprocess_frames:
  assumes "isServerReady s" and "resampleTo16kHZ block (sampleRate s) = Inr frame"
  shows "audio_frames (snd (onaudioprocess s block)) =
           (if hasAudio block \<and> readyState s = OPEN then [frame] else [])"
  using assms by (simp add: onaudioprocess_def)

text \<open>
  C2, as the code has it. Once the server is ready (and the sample rate is positive),
  a block is resampled and sent as exactly one binary frame when some sample exceeds
  0.01 in absolute value and the socket is open; a silent block, or any block while the
  socket is not open, sends no frame. The state is unchanged either way.
\<close>

theorem audio_after_ready_sent_when_audible:
  assumes "isServerReady s" and "0 < sampleRate s"
  shows "\<exists>frame. resampleTo16kHZ block (sampleRate s) = Inr frame
           \<and> fst (onaudioprocess s block) = s
           \<and> audio_frames (snd (onaudioprocess s block)) =
               (if hasAudio block \<and> readyState s = OPEN then [frame] else [])"
proof -
  from resample_returns [OF assms(2), of block]
  obtain frame where f: "resampleTo16kHZ block (sampleRate s) = Inr frame" by blast
  show ?thesis
    using f onaudioprocess_frames [OF assms(1) f] onaudioprocess_state [of s block] by blast
qed

theorem audio_after_ready_sent_when_audible_witness:
  "isServerReady ready_session \<and> 0 < sampleRate ready_session
   \<and> audio_frames (snd (onaudioprocess ready_session [1 / 2, 1 / 2, 1 / 2])) = [[Some (1 / 2)]]"
proof -
  have r: "resampleTo16kHZ [1 / 2, 1 / 2, 1 / 2] 48000 = Inr [Some (1 / 2)]"
    by code_simp
  have h: "hasAudio [1 / 2, 1 / 2, 1 / 2]" by (simp add: hasAudio_def)
  have a: "isServerReady ready_session" and b: "0 < sampleRate ready_session"
    by (simp_all add: ready_session_eq)
  from audio_after_ready_sent_when_audible [OF a b, of "[1 / 2, 1 / 2, 1 / 2]"]
  show ?thesis using a b r h by (auto simp add: ready_session_eq)
qed

text \<open>
  A block whose samples are all within 0.01 of zero, delivered after readiness with the
  socket open, sends no frame.
\<close>

theorem silent_block_not_sent:
  "isServerReady ready_session \<and> readyState ready_session = OPEN
   \<and> audio_frames (snd (onaudioprocess ready_session [0, 1 / 200, 0])) = []"
  by (simp add: ready_session_eq onaudioprocess_def hasAudio_def)

lemma onmessage_language_keep:
  "language s \<noteq> None \<Longrightarrow> language (fst (onmessage s fr)) = language s"
  by (cases "language s") (simp_all add: onmessage_def split: frame.splits option.splits)

lemma step_language_keep:
  "language s \<noteq> None \<Longrightarrow> language (fst (step s e)) = language s"
  by (cases e)
     (simp_all add: onopen_def onclose_def onerror_def onmessage_language_keep
        onaudioprocess_state Let_def)

lemma run_language_keep:
  "language s \<noteq> None \<Longrightarrow> language (fst (run s es)) = language s"
proof (induction es arbitrary: s)
  case Nil
  then show ?case by simp
next
  case (Cons e es)
  have "language (fst (step s e)) = language s" using Cons.prems by (rule step_language_keep)
  moreover from this Cons.prems have "language (fst (step s e)) \<noteq> None" by simp
  ultimately show ?case using Cons.IH [of "fst (step s e)"] unfolding run_Cons by simp
qed

lemma language_changes_resolved:
  "language s \<noteq> None \<Longrightarrow> language_changes s es = 0"
proof (induction es arbitrary: s)
  case Nil
  then show ?case by simp
next
  case (Cons e es)
  have k: "language (fst (step s e)) = language s" using Cons.prems by (rule step_language_keep)
  with Cons.prems have "language (fst (step s e)) \<noteq> None" by simp
  then have "language_changes (fst (step s e)) es = 0" by (rule Cons.IH)
  with k show ?case by simp
qed

lemma language_changes_le_1: "language_changes s es \<le> 1"
proof (induction es arbitrary: s)
  case Nil
  then show ?case by simp
next
  case (Cons e es)
  show ?case
  proof (cases "language (fst (step s e)) = language s")
    case True
    then show ?thesis using Cons.IH [of "fst (step s e)"] by simp
  next
    case False
    then have "language s = None" using step_language_keep [of s e] by blast
    with False have "language (fst (step s e)) \<noteq> None" by simp
    then have "language_changes (fst (step s e)) es = 0" by (rule language_changes_resolved)
    with False show ?thesis by simp
  qed
qed

lemma onmessage_language_set:
  assumes "language s = None" "m_uid data = Some (uuid s)" "m_status data \<noteq> Some ''WAIT''"
    "isServerReady s \<or> m_message data \<noteq> Some ''SERVER_READY''" "truthy (m_language data)"
  shows "onmessage s (Json data) =
           (s\<lparr>language := m_language data\<rparr>,
            [UpdateStatus Server
               (DetectedLanguage (the (m_language data)) (m_language_prob data)) False,
             UpdateSelectedLanguage (the (m_language data))])"
  using assms by (auto simp add: onmessage_def)

lemma truthy_not_None: "truthy x \<Longrightarrow> x \<noteq> None"
  by (cases x) simp_all

text \<open>
  C5. Over any sequence of events the value of \<^verbatim>\<open>language\<close> changes at most once.
  A language that is not null is never replaced, whatever the later frames carry. When
  it is null, a frame that carries a language and reaches the language check (it is
  addressed to this client, its status is not WAIT and it is not the SERVER_READY frame
  that makes the session ready) sets it, and the value stays through every later event,
  other detected languages included.
\<close>

theorem language_resolved_once:
  "language_changes s es \<le> 1
   \<and> (language s \<noteq> None \<longrightarrow> language (fst (run s es)) = language s)
   \<and> (language s = None \<and> m_uid data = Some (uuid s) \<and> m_status data \<noteq> Some ''WAIT''
        \<and> (isServerReady s \<or> m_message data \<noteq> Some ''SERVER_READY'')
        \<and> truthy (m_language data)
      \<longrightarrow> language (fst (run s (SocketMessage (Json data) # es))) = m_language data)"
proof -
  have c: "language (fst (run s (SocketMessage (Json data) # es))) = m_language data"
    if h: "language s = None" "m_uid data = Some (uuid s)" "m_status data \<noteq> Some ''WAIT''"
      "isServerReady s \<or> m_message data \<noteq> Some ''SERVER_READY''" "truthy (m_language data)"
  proof -
    let ?s1 = "fst (step s (SocketMessage (Json data)))"
    have l: "language ?s1 = m_language data"
      using onmessage_language_set [OF h] by simp
    then have "language ?s1 \<noteq> None" using truthy_not_None [OF h(5)] by simp
    then have "language (fst (run ?s1 es)) = language ?s1" by (rule run_language_keep)
    then show ?thesis unfolding run_Cons using l by simp
  qed
  show ?thesis using language_changes_le_1 [of s es] run_language_keep [of s es] c by blast
qed

theorem language_resolved_once_witness:
  "language (fst (run (startRecord (sample_options None) ''u'' 48000)
      [SocketMessage (Json ((frame_for ''u'')\<lparr>m_language := Some ''en''\<rparr>)),
       SocketMessage (Json ((frame_for ''u'')\<lparr>m_language := Some ''fr''\<rparr>))])) = Some ''en''"
  using language_resolved_once [of "startRecord (sample_options None) ''u'' 48000"
      "[SocketMessage (Json ((frame_for ''u'')\<lparr>m_language := Some ''fr''\<rparr>))]"
      "(frame_for ''u'')\<lparr>m_language := Some ''en''\<rparr>"]
  by (simp add: startRecord_def sample_options_def frame_for_def)

lemma onmessage_not_ready_keep:
  "\<not> isServerReady s \<Longrightarrow> \<not> announces_ready (SocketMessage fr)
     \<Longrightarrow> \<not> isServerReady (fst (onmessage s fr))"
  by (cases fr) (simp_all add: onmessage_def split: option.splits)

lemma step_not_ready_keep:
  "\<not> isServerReady s \<Longrightarrow> \<not> announces_ready e \<Longrightarrow> \<not> isServerReady (fst (step s e))"
  by (cases e)
     (simp_all add: onopen_def onclose_def onerror_def onmessage_not_ready_keep
        onaudioprocess_state Let_def)

lemma run_not_ready_keep:
  "\<not> isServerReady s \<Longrightarrow> \<not> list_ex announces_ready es
     \<Longrightarrow> \<not> isServerReady (fst (run s es))"
proof (induction es arbitrary: s)
  case Nil
  then show ?case by simp
next
  case (Cons e es)
  from Cons.prems have "\<not> announces_ready e" and rest: "\<not> list_ex announces_ready es"
    by simp_all
  with Cons.prems(1) have "\<not> isServerReady (fst (step s e))"
    by (simp add: step_not_ready_keep)
  then have "\<not> isServerReady (fst (run (fst (step s e)) es))"
    using rest by (rule Cons.IH)
  then show ?case unfolding run_Cons by simp
qed

text \<open>
  C6, as the code has it. A WAIT frame addressed to this client produces exactly one
  server-busy status line and one wait popup for the tab, both carrying the frame's
  message, then asks the extension to reset the capture buttons and to stop the capture;
  the session's own state is left as it was. The handler itself closes nothing: when the
  server was not yet ready, no audio frame is sent afterwards as long as no frame
  announcing readiness arrives.
\<close>

theorem wait_reports_busy_and_requests_stop:
  assumes "m_uid data = Some (uuid s)" and "m_status data = Some ''WAIT''"
  shows "onmessage s (Json data) =
           (s, [UpdateStatus Server (ServerBusy (m_message data)) False,
                TabShowWaitPopup (opt_currentTabId (options s)) (m_message data),
                ToggleCaptureButtons False, StopCapture])
         \<and> (\<not> isServerReady s \<and> \<not> list_ex announces_ready es
              \<longrightarrow> audio_frames (snd (run s (SocketMessage (Json data) # es))) = [])"
proof -
  have a: "onmessage s (Json data) =
           (s, [UpdateStatus Server (ServerBusy (m_message data)) False,
                TabShowWaitPopup (opt_currentTabId (options s)) (m_message data),
                ToggleCaptureButtons False, StopCapture])"
    using assms by (simp add: onmessage_def)
  have b: "audio_frames (snd (run s (SocketMessage (Json data) # es))) = []"
    if "\<not> isServerReady s" "\<not> list_ex announces_ready es"
  proof -
    have "\<not> isServerReady (fst (run s es))" using that by (rule run_not_ready_keep)
    then have "audio_frames (snd (run s es)) = []" by (rule run_frames_not_ready)
    then show ?thesis unfolding run_Cons using a by simp
  qed
  from a b show ?thesis by blast
qed

theorem wait_reports_busy_and_requests_stop_witness:
  "audio_frames (snd (run (startRecord (sample_options None) ''u'' 48000)
      [SocketMessage (Json ((frame_for ''u'')\<lparr>m_status := Some ''WAIT'', m_message := Some ''2''\<rparr>)),
       AudioProcess [1 / 2, 1 / 2, 1 / 2], SocketClose])) = []
   \<and> snd (onmessage (startRecord (sample_options None) ''u'' 48000)
        (Json ((frame_for ''u'')\<lparr>m_status := Some ''WAIT'', m_message := Some ''2''\<rparr>))) =
       [UpdateStatus Server (ServerBusy (Some ''2'')) False, TabShowWaitPopup 7 (Some ''2''),
        ToggleCaptureButtons False, StopCapture]"
  using wait_reports_busy_and_requests_stop
     [of "(frame_for ''u'')\<lparr>m_status := Some ''WAIT'', m_message := Some ''2''\<rparr>"
         "startRecord (sample_options None) ''u'' 48000"
         "[AudioProcess [1 / 2, 1 / 2, 1 / 2], SocketClose]"]
  by (simp add: startRecord_def sample_options_def frame_for_def onmessage_def
        onaudioprocess_def onclose_def)

text \<open>
  A WAIT frame that arrives when the server is ready leaves it ready: the next audible
  block is sent.
\<close>

theorem audio_sent_after_wait:
  "audio_frames (snd (run ready_session
      [SocketMessage (Json ((frame_for ''u'')\<lparr>m_status := Some ''WAIT'', m_message := Some ''2''\<rparr>)),
       AudioProcess [1 / 2, 1 / 2, 1 / 2]])) = [[Some (1 / 2)]]"
proof -
  have r: "resampleTo16kHZ [1 / 2, 1 / 2, 1 / 2] 48000 = Inr [Some (1 / 2)]"
    by code_simp
  show ?thesis
    by (simp add: ready_session_eq frame_for_def onmessage_def onaudioprocess_def
          hasAudio_def r)
qed

lemma onmessage_no_transcript:
  assumes "language s = None" and "truthy (m_language data)"
  shows "\<not> list_ex is_tab_transcript (snd (onmessage s (Json data)))"
  using assms by (simp add: onmessage_def)

text \<open>
  C10. While the language is null, a frame that carries a language is never forwarded
  to the tab as a transcript, whatever segments it carries: every branch it can take
  returns before the segments are looked at. When it reaches the language check it sets
  the language, and its only effects are the status line and the language update.
\<close>

theorem language_message_drops_segments:
  assumes "language s = None" and "truthy (m_language data)"
  shows "\<not> list_ex is_tab_transcript (snd (onmessage s (Json data)))
         \<and> (m_uid data = Some (uuid s) \<and> m_status data \<noteq> Some ''WAIT''
              \<and> (isServerReady s \<or> m_message data \<noteq> Some ''SERVER_READY'')
            \<longrightarrow> onmessage s (Json data) =
                  (s\<lparr>language := m_language data\<rparr>,
                   [UpdateStatus Server
                      (DetectedLanguage (the (m_language data)) (m_language_prob data)) False,
                    UpdateSelectedLanguage (the (m_language data))]))"
  using onmessage_no_transcript [OF assms] onmessage_language_set [OF assms(1) _ _ _ assms(2)]
  by blast

theorem language_message_drops_segments_witness:
  "onmessage ready_session
     (Json ((frame_for ''u'')\<lparr>m_language := Some ''en'',
               m_segments := Some [\<lparr>seg_text = Some ''hello''\<rparr>]\<rparr>)) =
     (ready_session\<lparr>language := Some ''en''\<rparr>,
      [UpdateStatus Server (DetectedLanguage ''en'' None) False, UpdateSelectedLanguage ''en''])"
  using language_message_drops_segments [of ready_session
     "(frame_for ''u'')\<lparr>m_language := Some ''en'',
               m_segments := Some [\<lparr>seg_text = Some ''hello''\<rparr>]\<rparr>"]
  by (simp add: ready_session_eq frame_for_def)


section \<open>Properties of the transcript overlay\<close>

lemma split_space_not_Nil: "split_space t \<noteq> []"
  by (induction t) (simp_all split: list.splits)

lemma split_space_join:
  "concat (map (\<lambda>w. w @ '' '') (split_space t)) = t @ '' ''"
proof (induction t)
  case Nil
  show ?case by simp
next
  case (Cons c cs)
  obtain w ws where s: "split_space cs = w # ws"
    using split_space_not_Nil [of cs] by (cases "split_space cs") auto
  show ?case using Cons.IH by (simp add: s)
qed

lemma substring_nat:
  assumes "a \<le> b" and "b \<le> length s"
  shows "substring s (int a) (int b) = take (b - a) (drop a s)"
proof -
  have "max 0 (min (int a) (int (length s))) = int a" using assms by simp
  moreover have "max 0 (min (int b) (int (length s))) = int b" using assms by simp
  moreover have "min (int a) (int b) = int a" "max (int a) (int b) = int b"
    using assms by simp_all
  moreover have "nat (int b - int a) = b - a" by simp
  ultimately show ?thesis by (simp add: substring_def Let_def)
qed

lemma butlast_drop_snoc:
  assumes "n < length s" and "last s = c"
  shows "take (length s - 1 - n) (drop n s) @ [c] = drop n s"
proof -
  have ne: "drop n s \<noteq> []" using assms(1) by simp
  have "take (length s - 1 - n) (drop n s) = butlast (drop n s)"
    by (simp add: butlast_conv_take)
  moreover have "last (drop n s) = c" using assms by simp
  ultimately show ?thesis using ne append_butlast_last_id [OF ne] by simp
qed

lemma getLines_loop_break:
  assumes "exceeds (oh (seg @ w @ '' '')) lh c"
  shows "getLines_loop oh lh (w # ws) (segs, c, seg, slen) =
           getLines_loop oh lh ws
             (segs @ [substring (seg @ w @ '' '') (int slen)
                        (int (length (seg @ w @ '' '')) - 1 - int (length w) - 1)],
              c + 1, seg @ w @ '' '',
              slen + length (substring (seg @ w @ '' '') (int slen)
                        (int (length (seg @ w @ '' '')) - 1 - int (length w) - 1)) + 1)"
  using assms by (simp add: Let_def)

lemma getLines_loop_no_break:
  assumes "\<not> exceeds (oh (seg @ w @ '' '')) lh c"
  shows "getLines_loop oh lh (w # ws) (segs, c, seg, slen) =
           getLines_loop oh lh ws (segs, c, seg @ w @ '' '', slen)"
  using assms by (simp add: Let_def)

text \<open>
  The invariant of the loop once the first word is in: \<open>segmentLen\<close> points inside
  \<open>segment\<close>, which ends in a space, and the lines found so far, each followed by a
  space, are exactly the first \<open>segmentLen\<close> characters of \<open>segment\<close>.
\<close>

lemma getLines_loop_inv:
  assumes "slen < length seg" and "last seg = CHR '' ''"
    and "concat (map (\<lambda>l. l @ '' '') segs) = take slen seg"
  shows "\<exists>segs1 c1 slen1.
           getLines_loop oh lh ws (segs, c, seg, slen) =
             (segs1, c1, seg @ concat (map (\<lambda>w. w @ '' '') ws), slen1)
           \<and> slen1 < length (seg @ concat (map (\<lambda>w. w @ '' '') ws))
           \<and> concat (map (\<lambda>l. l @ '' '') segs1) =
               take slen1 (seg @ concat (map (\<lambda>w. w @ '' '') ws))"
  using assms
proof (induction ws arbitrary: segs c seg slen)
  case Nil
  then show ?case by simp
next
  case (Cons w ws)
  define seg1 where "seg1 = seg @ w @ '' ''"
  have last1: "last seg1 = CHR '' ''" by (simp add: seg1_def)
  have rest: "seg1 @ concat (map (\<lambda>w. w @ '' '') ws) = seg @ concat (map (\<lambda>w. w @ '' '') (w # ws))"
    by (simp add: seg1_def)
  show ?case
  proof (cases "exceeds (oh seg1) lh c")
    case True
    define line where
      "line = substring seg1 (int slen) (int (length seg1) - 1 - int (length w) - 1)"
    have e: "int (length seg1) - 1 - int (length w) - 1 = int (length seg - 1)"
      using Cons.prems(1) by (simp add: seg1_def)
    have line: "line = take (length seg - 1 - slen) (drop slen seg)"
    proof -
      have "line = take (length seg - 1 - slen) (drop slen seg1)"
        unfolding line_def e using Cons.prems(1) by (intro substring_nat) (simp_all add: seg1_def)
      also have "\<dots> = take (length seg - 1 - slen) (drop slen seg)"
        using Cons.prems(1) by (simp add: seg1_def)
      finally show ?thesis .
    qed
    have snoc: "line @ '' '' = drop slen seg"
      unfolding line using butlast_drop_snoc [OF Cons.prems(1) Cons.prems(2)] by simp
    have len: "slen + length line + 1 = length seg"
      using Cons.prems(1) by (simp add: line)
    have a: "slen + length line + 1 < length seg1" unfolding len by (simp add: seg1_def)
    have b: "concat (map (\<lambda>l. l @ '' '') (segs @ [line])) = take (slen + length line + 1) seg1"
    proof -
      have "concat (map (\<lambda>l. l @ '' '') (segs @ [line])) = take slen seg @ (line @ '' '')"
        using Cons.prems(3) by simp
      also have "\<dots> = seg" unfolding snoc by simp
      also have "\<dots> = take (slen + length line + 1) seg1" unfolding len by (simp add: seg1_def)
      finally show ?thesis .
    qed
    have step: "getLines_loop oh lh (w # ws) (segs, c, seg, slen) =
                  getLines_loop oh lh ws (segs @ [line], c + 1, seg1, slen + length line + 1)"
      using True unfolding line_def seg1_def by (rule getLines_loop_break)
    from Cons.IH [OF a last1 b, of "c + 1"]
    show ?thesis unfolding step rest .
  next
    case False
    have a: "slen < length seg1" using Cons.prems(1) by (simp add: seg1_def)
    have b: "concat (map (\<lambda>l. l @ '' '') segs) = take slen seg1"
      using Cons.prems(1,3) by (simp add: seg1_def)
    have step: "getLines_loop oh lh (w # ws) (segs, c, seg, slen) =
                  getLines_loop oh lh ws (segs, c, seg1, slen)"
      using False unfolding seg1_def by (rule getLines_loop_no_break)
    from Cons.IH [OF a last1 b, of c]
    show ?thesis unfolding step rest .
  qed
qed

lemma join_space_snoc:
  "ls \<noteq> [] \<Longrightarrow> concat (map (\<lambda>l. l @ '' '') ls) = join_space ls @ '' ''"
  by (induction ls rule: join_space.induct) simp_all

text \<open>
  C3, as the code has it. A line never contains the space that separates it from the
  next line, so the lines joined with one space between them, not the lines
  concatenated, give back the text exactly. This holds for every text, layout and line
  height, provided the first word alone does not already exceed one line (the loop's
  first test is false).
\<close>

theorem lines_joined_by_space:
  assumes "\<not> exceeds (oh (hd (split_space text0) @ '' '')) lh 1"
  shows "join_space (getLines oh (Some text0) lh) = text0"
proof -
  obtain w ws where s: "split_space text0 = w # ws"
    using split_space_not_Nil [of text0] by (cases "split_space text0") auto
  define full where "full = (w @ '' '') @ concat (map (\<lambda>w. w @ '' '') ws)"
  have full: "full = text0 @ '' ''"
    using split_space_join [of text0] by (simp add: s full_def)
  have first: "getLines_loop oh lh (w # ws) ([], 1, [], 0) =
                 getLines_loop oh lh ws ([], 1, w @ '' '', 0)"
    using getLines_loop_no_break [of oh "[]" w lh 1 ws "[]" 0] assms unfolding s
    by (simp del: getLines_loop.simps)
  have "0 < length (w @ '' '')" "last (w @ '' '') = CHR '' ''"
    "concat (map (\<lambda>l. l @ '' '') []) = take 0 (w @ '' '')"
    by simp_all
  from getLines_loop_inv [OF this, of oh lh ws 1]
  obtain segs1 c1 slen1 where
    loop: "getLines_loop oh lh ws ([], 1, w @ '' '', 0) = (segs1, c1, full, slen1)"
    and lt: "slen1 < length full"
    and cc: "concat (map (\<lambda>l. l @ '' '') segs1) = take slen1 full"
    unfolding full_def by blast
  define lastSegment where
    "lastSegment = substring full (int slen1) (int (length full) - 1)"
  have lines: "getLines oh (Some text0) lh = segs1 @ [lastSegment]"
    unfolding lastSegment_def
    by (simp only: getLines_def option.case Let_def s first loop prod.case)
  have e: "int (length full) - 1 = int (length full - 1)" using lt by simp
  have "lastSegment = take (length full - 1 - slen1) (drop slen1 full)"
    unfolding lastSegment_def e using lt by (intro substring_nat) simp_all
  moreover have "last full = CHR '' ''" unfolding full by simp
  ultimately have "lastSegment @ '' '' = drop slen1 full"
    using butlast_drop_snoc [OF lt, of "CHR '' ''"] by simp
  then have "concat (map (\<lambda>l. l @ '' '') (segs1 @ [lastSegment])) = full"
    using cc by simp
  then have "join_space (segs1 @ [lastSegment]) @ '' '' = text0 @ '' ''"
    using join_space_snoc [of "segs1 @ [lastSegment]"] full by simp
  then show ?thesis unfolding lines by simp
qed

theorem lines_joined_by_space_witness:
  "\<not> exceeds (offsetHeight narrow_layout (hd (split_space ''hello world '') @ '' '')) 24 1
   \<and> join_space (getLines (offsetHeight narrow_layout) (Some ''hello world '') 24)
       = ''hello world ''"
proof -
  have h: "\<not> exceeds (offsetHeight narrow_layout (hd (split_space ''hello world '') @ '' '')) 24 1"
    by (simp add: narrow_layout_def exceeds_def)
  from lines_joined_by_space [of "offsetHeight narrow_layout" "''hello world ''" 24, OF h] h
  show ?thesis by simp
qed

text \<open>
  In a box eight characters wide the text \<open>hello world\<close> makes two lines, and their
  concatenation has lost the space between the words.
\<close>

theorem boundary_space_dropped:
  "getLines (offsetHeight narrow_layout) (Some ''hello world '') 24 = [''hello'', ''world '']
   \<and> concat [''hello'', ''world ''] \<noteq> ''hello world ''"
  by code_simp

lemma segmentsToShow_drop: "segmentsToShow segs = drop (length segs - 3) segs"
proof -
  have "nat (max 0 (int (length segs) - 3)) = length segs - 3" by simp
  then show ?thesis by (simp only: segmentsToShow_def)
qed

lemma length_segmentsToShow: "length (segmentsToShow segs) \<le> 3"
  by (simp add: segmentsToShow_drop)

lemma show_segments_fits:
  "index + length segs \<le> length els \<Longrightarrow>
     show_segments els index segs = take index els @ segs @ drop (index + length segs) els"
proof (induction segs arbitrary: els index)
  case Nil
  then show ?case by simp
next
  case (Cons segment rest)
  have i: "index < length els" using Cons.prems by simp
  have "show_segments els index (segment # rest) =
          show_segments (els[index := segment]) (index + 1) rest"
    using i by simp
  also have "\<dots> = take (index + 1) (els[index := segment]) @ rest
                    @ drop (index + 1 + length rest) (els[index := segment])"
    using Cons.prems by (intro Cons.IH) simp
  also have "\<dots> = take index els @ (segment # rest) @ drop (index + length (segment # rest)) els"
    using i by (simp add: take_Suc_conv_app_nth)
  finally show ?case .
qed

lemma show_segments_cleared:
  "length segs \<le> 3 \<Longrightarrow>
     show_segments (replicate 3 []) 0 segs = segs @ replicate (3 - length segs) []"
  using show_segments_fits [of 0 segs "replicate 3 []"] by simp

lemma textSegments_update:
  "textSegments (updateTranscription L text0 v) =
     getLines (offsetHeight L) (Some (replace_breaks text0)) (lineHeight_of L)"
  by (simp add: updateTranscription_def Let_def)

lemma textElements_update:
  "textElements (updateTranscription L text0 v) =
     show_segments (replicate 3 []) 0
       (segmentsToShow (getLines (offsetHeight L) (Some (replace_breaks text0)) (lineHeight_of L)))"
  by (simp add: updateTranscription_def Let_def)

lemma length_textElements_update:
  "length (textElements (updateTranscription L text0 v)) = 3"
proof -
  let ?shown =
    "segmentsToShow (getLines (offsetHeight L) (Some (replace_breaks text0)) (lineHeight_of L))"
  have le: "length ?shown \<le> 3" by (rule length_segmentsToShow)
  have "textElements (updateTranscription L text0 v) = ?shown @ replicate (3 - length ?shown) []"
    unfolding textElements_update using le by (rule show_segments_cleared)
  then show ?thesis using le by simp
qed

lemma content_listener_window:
  assumes "length (textElements v) \<le> 3"
  shows "length (textElements (content_listener L v m)) \<le> 3"
proof (cases m)
  case (Transcript fr)
  then show ?thesis using assms
    by (cases fr) (simp_all add: length_textElements_update Let_def split: option.splits)
qed (simp_all add: assms)

lemma deliver_window:
  "length (textElements v) \<le> 3 \<Longrightarrow> length (textElements (deliver L v msgs)) \<le> 3"
  unfolding deliver_def
  by (induction msgs arbitrary: v) (simp_all add: content_listener_window)

text \<open>
  C7. After every update, whatever the text and the layout, at most three lines are
  shown: they are the last three of the computed lines (all of them when there are
  fewer), written to the three visible elements in order, the remaining elements left
  empty. The lines left out of the display are not lost: the whole list of lines
  computed from the text is kept in \<^verbatim>\<open>textSegments\<close>. Over any sequence of
  messages to the content script there are never more than three visible elements.
\<close>

theorem display_window_at_most_three:
  "length (segmentsToShow (textSegments (updateTranscription L text0 v))) \<le> 3
   \<and> segmentsToShow (textSegments (updateTranscription L text0 v)) =
       drop (length (textSegments (updateTranscription L text0 v)) - 3)
         (textSegments (updateTranscription L text0 v))
   \<and> textElements (updateTranscription L text0 v) =
       segmentsToShow (textSegments (updateTranscription L text0 v))
         @ replicate (3 - length (segmentsToShow (textSegments (updateTranscription L text0 v)))) []
   \<and> textSegments (updateTranscription L text0 v) =
       getLines (offsetHeight L) (Some (replace_breaks text0)) (lineHeight_of L)
   \<and> length (textElements (deliver L initial_overlay msgs)) \<le> 3"
proof -
  let ?lines = "getLines (offsetHeight L) (Some (replace_breaks text0)) (lineHeight_of L)"
  have t: "textSegments (updateTranscription L text0 v) = ?lines" by (rule textSegments_update)
  have e: "textElements (updateTranscription L text0 v) =
          segmentsToShow ?lines @ replicate (3 - length (segmentsToShow ?lines)) []"
    unfolding textElements_update
    by (rule show_segments_cleared) (rule length_segmentsToShow)
  have w: "length (textElements (deliver L initial_overlay msgs)) \<le> 3"
    by (rule deliver_window) (simp add: initial_overlay_def)
  from e w show ?thesis
    unfolding t using length_segmentsToShow [of ?lines] segmentsToShow_drop [of ?lines] by simp
qed

lemma batch_text_acc:
  "foldl (\<lambda>acc seg. if truthy (seg_text seg) then acc @ the (seg_text seg) @ '' '' else acc)
     a segs =
   a @ concat (map (\<lambda>seg. the (seg_text seg) @ '' '')
                 (filter (\<lambda>seg. truthy (seg_text seg)) segs))"
  by (induction segs arbitrary: a) simp_all

lemma batch_text_concat:
  "batch_text segs =
     concat (map (\<lambda>seg. the (seg_text seg) @ '' '') (filter (\<lambda>seg. truthy (seg_text seg)) segs))"
  unfolding batch_text_def by (simp add: batch_text_acc)

lemma deliver_snoc: "deliver L v (msgs @ [m]) = content_listener L (deliver L v msgs) m"
  by (simp add: deliver_def)

text \<open>
  C4, as the code has it. The text of a batch is the non-empty segment texts of that
  batch, each followed by one space. When the batch is non-empty and its text is not
  blank, the lines kept after it are those of this text alone, line breaks replaced by
  spaces, whatever messages came before and whatever state they left: no transcript is
  accumulated from one batch to the next.
\<close>

theorem lines_recomputed_from_latest_batch:
  assumes "m_segments message = Some segs" and "segs \<noteq> []" and "trim (batch_text segs) \<noteq> []"
  shows "textSegments (deliver L v (msgs @ [Transcript (Json message)])) =
           getLines (offsetHeight L) (Some (replace_breaks (batch_text segs))) (lineHeight_of L)
         \<and> batch_text segs =
             concat (map (\<lambda>seg. the (seg_text seg) @ '' '')
                       (filter (\<lambda>seg. truthy (seg_text seg)) segs))"
proof -
  have "content_listener L (deliver L v msgs) (Transcript (Json message)) =
          updateTranscription L (batch_text segs) (deliver L v msgs)"
    using assms by (simp add: Let_def)
  then show ?thesis
    unfolding deliver_snoc using batch_text_concat [of segs] by (simp add: textSegments_update)
qed

theorem lines_recomputed_from_latest_batch_witness:
  "textSegments (deliver narrow_layout initial_overlay
      ([batch [''hello world'']]
       @ [Transcript (Json ((frame_for ''u'')\<lparr>m_segments := Some [\<lparr>seg_text = Some ''aa''\<rparr>]\<rparr>))]))
     = [''aa '']"
proof -
  have a: "m_segments ((frame_for ''u'')\<lparr>m_segments := Some [\<lparr>seg_text = Some ''aa''\<rparr>]\<rparr>)
             = Some [\<lparr>seg_text = Some ''aa''\<rparr>]"
    by simp
  have b: "[\<lparr>seg_text = Some ''aa''\<rparr>] \<noteq> []" by simp
  have c: "trim (batch_text [\<lparr>seg_text = Some ''aa''\<rparr>]) \<noteq> []" by code_simp
  have d: "getLines (offsetHeight narrow_layout)
             (Some (replace_breaks (batch_text [\<lparr>seg_text = Some ''aa''\<rparr>])))
             (lineHeight_of narrow_layout) = [''aa '']"
    by code_simp
  from lines_recomputed_from_latest_batch [OF a b c, of narrow_layout initial_overlay
         "[batch [''hello world'']]"]
  show ?thesis unfolding d by (rule conjunct1)
qed

text \<open>
  After the batches \<open>aa\<close> and \<open>bb\<close> the lines are those of \<open>bb\<close> alone; the
  accumulated text \<open>aa bb\<close> would give another line.
\<close>

theorem earlier_batch_forgotten:
  "textSegments (deliver narrow_layout initial_overlay [batch [''aa''], batch [''bb'']]) = [''bb '']
   \<and> getLines (offsetHeight narrow_layout) (Some ''aa bb '') 24 = [''aa bb '']"
  by code_simp

end
